theory Spec2Isabelle
  imports Main "HOL-Library.Sublist"
begin

section \<open>The sync-granule task: data model\<close>

text \<open>
  The development follows the task module that exports \<open>syncGranule\<close> (with its private
  helper \<open>download\<close>). JavaScript objects become records, \<open>undefined\<close>/\<open>null\<close> members
  become \<open>option\<close>s, a rejected promise or a thrown exception becomes a value.
\<close>

subsection \<open>Errors\<close>

text \<open>
  A JavaScript error object as far as the task reads it: its \<open>name\<close>, its \<open>message\<close>
  and \<open>details.status\<close> (\<open>None\<close> when \<open>details\<close> is missing or has no status).
\<close>

datatype error = Error (err_name: string) (err_message: string) (err_details_status: "string option")

text \<open>
  The error classes of the common errors module and the engine's \<open>TypeError\<close>: each
  constructor sets the name of its class and the message it is given.
\<close>

definition ResourcesLockedError :: "string \<Rightarrow> error" where
  "ResourcesLockedError msg = Error ''ResourcesLockedError'' msg None"

definition ProviderNotFound :: "string \<Rightarrow> error" where
  "ProviderNotFound msg = Error ''ProviderNotFound'' msg None"

definition RemoteResourceError :: "string \<Rightarrow> error" where
  "RemoteResourceError msg = Error ''RemoteResourceError'' msg None"

definition ConnectionTimeout :: "string \<Rightarrow> error" where
  "ConnectionTimeout msg = Error ''ConnectionTimeout'' msg None"

definition TypeError :: "string \<Rightarrow> error" where
  "TypeError msg = Error ''TypeError'' msg None"

text \<open>\<open>Error.prototype.toString\<close>: the name, the message, or both joined by a colon.\<close>

definition toString :: "error \<Rightarrow> string" where
  "toString e =
     (if err_name e = [] then err_message e
      else if err_message e = [] then err_name e
      else err_name e @ '': '' @ err_message e)"

text \<open>\<open>String.prototype.includes\<close>: the search string occurs somewhere in the string.\<close>

definition str_includes :: "string \<Rightarrow> string \<Rightarrow> bool" where
  "str_includes s search = sublist search s"

subsection \<open>Granules, collections, providers, events\<close>

record granule_file =
  name :: string
  path :: string
  fileSize :: nat
  duplicate_found :: bool

record granule =
  granuleId :: string
  files :: "granule_file list"

record collection =
  collection_name :: string
  duplicateHandling :: "string option"
  process :: "string option"

record provider =
  provider_id :: string
  protocol :: string

text \<open>
  Of \<open>event.meta.buckets\<close> the task reads \<open>private.name\<close> only. What \<open>syncGranule\<close>
  reads without a guard (\<open>meta.stack\<close>, \<open>meta.buckets.private.name\<close>,
  \<open>payload.granules\<close>) is a field that is always there; what it tests before use
  (\<open>meta.provider\<close>, \<open>meta.collection\<close> and the collection's \<open>duplicateHandling\<close> and
  \<open>process\<close>) is an \<open>option\<close>.
\<close>

record buckets =
  private_name :: string

record meta =
  stack :: string
  buckets :: buckets
  provider :: "provider option"
  collection :: "collection option"

record payload =
  granules :: "granule list"

record event =
  meta :: meta
  payload :: payload

text \<open>What \<open>syncGranule\<close> resolves with: the granules, and \<open>process\<close> when it is set.\<close>

record sync_output =
  output_granules :: "granule list"
  output_process :: "string option"

text \<open>
  The value of a call: a synchronous throw, a rejected promise or a resolved promise.
\<close>

datatype 'a outcome = Threw error | Rejected error | Resolved 'a

subsection \<open>The ingest adapter and the world it runs in\<close>

text \<open>
  The ingest class that \<open>granule.selector\<close> returns lives in the ingest package; the
  task only calls its constructor, its \<open>ingest\<close> method and, when defined, its \<open>end\<close>
  method. An instance is therefore a parameter: \<open>ingest\<close> acts on the adapter's part of
  the world (the provider session and the staging area) and resolves with the updated
  granule or rejects; \<open>end\<close> (here \<open>ingest_end\<close>) is optional, acts on the same part of
  the world and either returns (\<open>None\<close>) or throws (\<open>Some\<close> of what it throws).
\<close>

record 's adapter =
  ingest :: "granule \<Rightarrow> string \<Rightarrow> 's \<Rightarrow> (error + granule) \<times> 's"
  ingest_end :: "('s \<Rightarrow> error option \<times> 's) option"

type_synonym 's IngestClass =
  "buckets \<Rightarrow> collection option \<Rightarrow> provider \<Rightarrow> string \<Rightarrow> bool \<Rightarrow> string option \<Rightarrow> 's adapter"

text \<open>The calls the task makes on the adapter, in the order it makes them.\<close>

datatype call =
    New buckets "collection option" provider string bool "string option"
  | Ingest granule string
  | End

text \<open>
  Modelled from the spec: the lock table (the lock module is not among the sources). It is
  keyed by provider id and granule id; an entry holds its owner and the time at which it
  expires.
\<close>

type_synonym lock_key = "string \<times> string"

record lock_entry =
  owner :: nat
  expires :: nat

type_synonym lock_table = "lock_key \<rightharpoonup> lock_entry"

text \<open>
  The world a call runs in: \<open>sys\<close> is the adapter's part (provider session, staging
  area), \<open>locks\<close> the lock table, and \<open>calls\<close> the log of the calls made on the adapter
  so far. The log is not program state: it is kept so that properties about which calls
  were made, how often and in which order can be stated.
\<close>

record 's world =
  sys :: 's
  locks :: lock_table
  calls :: "call list"

section \<open>Node's \<open>path.join\<close> (POSIX)\<close>

fun split_sep :: "string \<Rightarrow> string \<Rightarrow> string list" where
  "split_sep cur [] = [rev cur]"
| "split_sep cur (c # cs) =
     (if c = CHR ''/'' then rev cur # split_sep [] cs else split_sep (c # cur) cs)"

text \<open>
  \<open>normalizeString\<close>: the segments kept so far are held last first; an empty segment and
  \<open>.\<close> are dropped, \<open>..\<close> removes the segment before it, or stays when there is none
  to remove and the path is relative.
\<close>

fun normalizeString :: "bool \<Rightarrow> string list \<Rightarrow> string list \<Rightarrow> string list" where
  "normalizeString allowAboveRoot res [] = rev res"
| "normalizeString allowAboveRoot res (seg # segs) =
     (if seg = [] \<or> seg = ''.'' then normalizeString allowAboveRoot res segs
      else if seg = ''..'' then
        (case res of
           [] \<Rightarrow> normalizeString allowAboveRoot (if allowAboveRoot then [''..''] else []) segs
         | r # rs \<Rightarrow>
             if r = ''..'' then normalizeString allowAboveRoot (''..'' # res) segs
             else normalizeString allowAboveRoot rs segs)
      else normalizeString allowAboveRoot (seg # res) segs)"

fun join_sep :: "string list \<Rightarrow> string" where
  "join_sep [] = []"
| "join_sep [s] = s"
| "join_sep (s # t # ss) = s @ ''/'' @ join_sep (t # ss)"

definition normalize :: "string \<Rightarrow> string" where
  "normalize p =
     (if p = [] then ''.''
      else
        let isAbsolute = (hd p = CHR ''/'');
            trailingSeparator = (last p = CHR ''/'');
            q = join_sep (normalizeString (\<not> isAbsolute) [] (split_sep [] p))
        in if q = [] then (if isAbsolute then ''/'' else if trailingSeparator then ''./'' else ''.'')
           else (if isAbsolute then ''/'' else []) @ q @ (if trailingSeparator then ''/'' else []))"

definition path_join :: "string list \<Rightarrow> string" where
  "path_join args =
     (let joined = join_sep (filter (\<lambda>a. a \<noteq> []) args)
      in if joined = [] then ''.'' else normalize joined)"

section \<open>\<open>download\<close>\<close>

text \<open>
  The \<open>for\<close> loop of \<open>download\<close>: each granule's \<open>ingest\<close> is awaited inside a
  \<open>try\<close>; a rejection is logged and thrown again, a result is pushed on
  \<open>updatedGranules\<close>.
\<close>

fun download_loop ::
  "'s adapter \<Rightarrow> string \<Rightarrow> granule list \<Rightarrow> granule list \<Rightarrow> 's world \<Rightarrow>
     (error + granule list) \<times> 's world" where
  "download_loop ing bucket [] updatedGranules w = (Inr updatedGranules, w)"
| "download_loop ing bucket (g # gs) updatedGranules w =
     (case ingest ing g bucket (sys w) of
        (Inl e, s') \<Rightarrow> (Inl e, w\<lparr>sys := s', calls := calls w @ [Ingest g bucket]\<rparr>)
      | (Inr r, s') \<Rightarrow>
          download_loop ing bucket gs (updatedGranules @ [r])
            (w\<lparr>sys := s', calls := calls w @ [Ingest g bucket]\<rparr>))"

text \<open>
  \<open>download\<close>: \<open>proceed\<close> is the constant \<open>true\<close> (the call of \<open>lock.proceed\<close> is
  commented out, as are both calls of \<open>lock.removeLock\<close>), so the lock table is never
  read or written. After the loop the debug message reads \<open>granules[0].granuleId\<close>,
  which throws a \<open>TypeError\<close> when the list is empty.
\<close>

definition download ::
  "'s adapter \<Rightarrow> string \<Rightarrow> provider \<Rightarrow> granule list \<Rightarrow> 's world \<Rightarrow>
     (error + granule list) \<times> 's world" where
  "download ing bucket prov grans w =
     (let proceed = True in
      if \<not> proceed then
        (Inl (ResourcesLockedError ''Download lock remained in place after multiple tries''), w)
      else
        (case download_loop ing bucket grans [] w of
           (Inl e, w') \<Rightarrow> (Inl e, w')
         | (Inr updatedGranules, w') \<Rightarrow>
             (case grans of
                [] \<Rightarrow> (Inl (TypeError ''Cannot read property 'granuleId' of undefined''), w')
              | g0 # _ \<Rightarrow> (Inr updatedGranules, w'))))"

section \<open>\<open>syncGranule\<close>\<close>

text \<open>
  The local \<open>duplicateHandling\<close>: it starts as \<open>null\<close> and takes the collection's value
  when the collection is there and its value is truthy (a non-empty string).
\<close>

definition truthy :: "string option \<Rightarrow> bool" where
  "truthy v = (case v of None \<Rightarrow> False | Some s \<Rightarrow> s \<noteq> [])"

definition resolve_duplicateHandling :: "event \<Rightarrow> string option" where
  "resolve_duplicateHandling ev =
     (let duplicateHandling0 = None in
      case collection (meta ev) of
        None \<Rightarrow> duplicateHandling0
      | Some c \<Rightarrow>
          if \<not> truthy duplicateHandling0 \<and> truthy (duplicateHandling c)
          then duplicateHandling c else duplicateHandling0)"

text \<open>The local \<open>fileStagingDir\<close>.\<close>

definition fileStagingDir :: "event \<Rightarrow> string" where
  "fileStagingDir ev = path_join [''file-staging'', stack (meta ev)]"

text \<open>The instance \<open>new IngestClass(...)\<close> builds; \<open>forceDownload\<close> is the constant \<open>false\<close>.\<close>

definition new_ingest :: "'s IngestClass \<Rightarrow> event \<Rightarrow> provider \<Rightarrow> 's adapter" where
  "new_ingest cls ev p =
     cls (buckets (meta ev)) (collection (meta ev)) p (fileStagingDir ev) False
       (resolve_duplicateHandling ev)"

definition new_call :: "event \<Rightarrow> provider \<Rightarrow> call" where
  "new_call ev p =
     New (buckets (meta ev)) (collection (meta ev)) p (fileStagingDir ev) False
       (resolve_duplicateHandling ev)"

text \<open>The local \<open>errorToThrow\<close> of the \<open>catch\<close> handler.\<close>

definition errorToThrow :: "error \<Rightarrow> error" where
  "errorToThrow e =
     (if str_includes (toString e) ''ECONNREFUSED'' then RemoteResourceError ''Connection Refused''
      else if err_details_status e = Some ''timeout'' then ConnectionTimeout ''connection Timed out''
      else e)"

text \<open>
  \<open>if (ingest.end) ingest.end()\<close>: nothing happens when the adapter has no \<open>end\<close>;
  otherwise the call is made and logged, and what it throws, if anything, is returned
  with the world it left.
\<close>

definition call_end :: "'s adapter \<Rightarrow> 's world \<Rightarrow> error option \<times> 's world" where
  "call_end ing w =
     (case ingest_end ing of
        None \<Rightarrow> (None, w)
      | Some f \<Rightarrow>
          (case f (sys w) of
             (thrown, s') \<Rightarrow> (thrown, w\<lparr>sys := s', calls := calls w @ [End]\<rparr>)))"

text \<open>
  The handler given to \<open>then\<close>: it calls \<open>end\<close> and returns the output; an exception of
  \<open>end\<close> leaves the handler, and the promise that \<open>then\<close> returns is rejected with it. The
  output is made of plain records, so logging it does not throw.
\<close>

definition then_handler ::
  "'s adapter \<Rightarrow> collection option \<Rightarrow> granule list \<Rightarrow> 's world \<Rightarrow> (error + sync_output) \<times> 's world" where
  "then_handler ing coll grans w =
     (case call_end ing w of
        (Some thrown, w') \<Rightarrow> (Inl thrown, w')
      | (None, w') \<Rightarrow>
          (Inr \<lparr>output_granules = grans,
                output_process =
                  (case coll of
                     None \<Rightarrow> None
                   | Some c \<Rightarrow> if truthy (process c) then process c else None)\<rparr>,
           w'))"

text \<open>
  The handler given to \<open>catch\<close>: it calls \<open>end\<close> and throws \<open>errorToThrow\<close>; an exception
  of \<open>end\<close> leaves the handler before \<open>errorToThrow\<close> is computed.
\<close>

definition catch_handler :: "'s adapter \<Rightarrow> error \<Rightarrow> 's world \<Rightarrow> sync_output outcome \<times> 's world" where
  "catch_handler ing e w =
     (case call_end ing w of
        (Some thrown, w') \<Rightarrow> (Rejected thrown, w')
      | (None, w') \<Rightarrow> (Rejected (errorToThrow e), w'))"

text \<open>
  \<open>syncGranule\<close>. The promise of \<open>download\<close> is chained as \<open>.then(...).catch(...)\<close>: the
  \<open>catch\<close> handler receives a rejection of \<open>download\<close> and also whatever the \<open>then\<close>
  handler throws.
\<close>

definition syncGranule ::
  "(string \<Rightarrow> string \<Rightarrow> error + 's IngestClass) \<Rightarrow> event \<Rightarrow> 's world \<Rightarrow>
     sync_output outcome \<times> 's world" where
  "syncGranule selector ev w =
     (let input = payload ev;
          downloadBucket = private_name (buckets (meta ev))
      in case provider (meta ev) of
           None \<Rightarrow> (Rejected (ProviderNotFound ''Provider info not provided''), w)
         | Some p \<Rightarrow>
             (case selector ''ingest'' (protocol p) of
                Inl e \<Rightarrow> (Threw e, w)
              | Inr IngestClass \<Rightarrow>
                  (let ing = new_ingest IngestClass ev p;
                       w1 = w\<lparr>calls := calls w @ [new_call ev p]\<rparr>
                   in case download ing downloadBucket p (granules input) w1 of
                        (Inr grans, w2) \<Rightarrow>
                          (case then_handler ing (collection (meta ev)) grans w2 of
                             (Inr out, w3) \<Rightarrow> (Resolved out, w3)
                           | (Inl thrown, w3) \<Rightarrow> catch_handler ing thrown w3)
                      | (Inl e, w2) \<Rightarrow> catch_handler ing e w2)))"

section \<open>Notions the properties are stated with\<close>

text \<open>
  Ingesting a list of granules one at a time and in order: the first granule is ingested
  in the state \<open>s\<close>, each later one in the state its predecessor left, every ingest
  succeeds, \<open>rs\<close> holds their results in the same order and \<open>s'\<close> is the last state.
\<close>

fun ingested_seq ::
  "'s adapter \<Rightarrow> string \<Rightarrow> granule list \<Rightarrow> 's \<Rightarrow> granule list \<Rightarrow> 's \<Rightarrow> bool" where
  "ingested_seq ing bucket [] s rs s' = (rs = [] \<and> s' = s)"
| "ingested_seq ing bucket (g # gs) s rs s' =
     (case ingest ing g bucket s of
        (Inl e, s1) \<Rightarrow> False
      | (Inr r, s1) \<Rightarrow>
          (case rs of [] \<Rightarrow> False | r' # rs' \<Rightarrow> r' = r \<and> ingested_seq ing bucket gs s1 rs' s'))"

definition ingest_calls :: "string \<Rightarrow> granule list \<Rightarrow> call list" where
  "ingest_calls bucket gs = map (\<lambda>g. Ingest g bucket) gs"

text \<open>
  The partial progress of an invocation: the records of the granules ingested before the
  first ingest that fails.
\<close>

fun ingested_before_failure :: "'s adapter \<Rightarrow> string \<Rightarrow> granule list \<Rightarrow> 's \<Rightarrow> granule list" where
  "ingested_before_failure ing bucket [] s = []"
| "ingested_before_failure ing bucket (g # gs) s =
     (case ingest ing g bucket s of
        (Inl e, s1) \<Rightarrow> []
      | (Inr r, s1) \<Rightarrow> r # ingested_before_failure ing bucket gs s1)"

text \<open>
  The lock of a key cannot be acquired within the maximum wait: its entry exists and is
  unexpired from \<open>now\<close> until \<open>now + maxWaitMs\<close>.
\<close>

definition lock_unavailable :: "lock_table \<Rightarrow> lock_key \<Rightarrow> nat \<Rightarrow> nat \<Rightarrow> bool" where
  "lock_unavailable t k now maxWaitMs =
     (case t k of None \<Rightarrow> False | Some en \<Rightarrow> now + maxWaitMs < expires en)"

subsection \<open>A small adapter and events to run the task on\<close>

text \<open>
  An adapter over a list of staged keys: a granule is staged under its bucket and id; the
  granules named \<open>refused\<close>, \<open>slow\<close> and \<open>missing\<close> fail as a refused connection that
  also timed out, a timeout and a missing file. Its \<open>end\<close> notes the closed session. A
  second adapter differs in its \<open>end\<close>, which throws. The selector gives the first for
  the protocol \<open>s3\<close> and the second for \<open>sftp\<close>.
\<close>

definition stub_ingest :: "granule \<Rightarrow> string \<Rightarrow> string list \<Rightarrow> (error + granule) \<times> string list" where
  "stub_ingest g bucket s =
     (if granuleId g = ''refused''
        then (Inl (Error ''Error'' ''connect ECONNREFUSED 127.0.0.1:21'' (Some ''timeout'')), s)
      else if granuleId g = ''slow'' then (Inl (Error ''Error'' ''no answer'' (Some ''timeout'')), s)
      else if granuleId g = ''missing'' then (Inl (Error ''FileNotFound'' ''no such file'' None), s)
      else (Inr g, s @ [bucket @ ''/'' @ granuleId g]))"

definition stub_adapter :: "string list adapter" where
  "stub_adapter = \<lparr>ingest = stub_ingest, ingest_end = Some (\<lambda>s. (None, s @ [''closed'']))\<rparr>"

definition stub_adapter_end_throws :: "string list adapter" where
  "stub_adapter_end_throws =
     \<lparr>ingest = stub_ingest,
      ingest_end = Some (\<lambda>s. (Some (Error ''Error'' ''session is not open'' None), s @ [''end failed'']))\<rparr>"

definition stub_selector :: "string \<Rightarrow> string \<Rightarrow> error + string list IngestClass" where
  "stub_selector kind proto =
     (if proto = ''s3'' then Inr (\<lambda>b c p dir force dh. stub_adapter)
      else if proto = ''sftp'' then Inr (\<lambda>b c p dir force dh. stub_adapter_end_throws)
      else Inl (Error ''Error'' ''Protocol not supported'' None))"

definition gran :: "string \<Rightarrow> granule" where
  "gran gid = \<lparr>granuleId = gid, files = []\<rparr>"

definition s3_provider :: provider where
  "s3_provider = \<lparr>provider_id = ''s3_provider'', protocol = ''s3''\<rparr>"

definition sftp_provider :: provider where
  "sftp_provider = \<lparr>provider_id = ''sftp_provider'', protocol = ''sftp''\<rparr>"

definition coll :: "string \<Rightarrow> collection" where
  "coll n = \<lparr>collection_name = n, duplicateHandling = None, process = None\<rparr>"

definition sync_event :: "provider option \<Rightarrow> collection option \<Rightarrow> granule list \<Rightarrow> event" where
  "sync_event p c gs =
     \<lparr>meta = \<lparr>stack = ''my-stack'', buckets = \<lparr>private_name = ''my-private''\<rparr>,
               provider = p, collection = c\<rparr>,
      payload = \<lparr>granules = gs\<rparr>\<rparr>"

definition world0 :: "string list world" where
  "world0 = \<lparr>sys = [], locks = Map.empty, calls = []\<rparr>"

text \<open>
  A world in which the lock of provider \<open>s3_provider\<close> and granule \<open>g1\<close> is held until
  time 600000.
\<close>

definition world_locked :: "string list world" where
  "world_locked =
     \<lparr>sys = [], locks = [(''s3_provider'', ''g1'') \<mapsto> \<lparr>owner = 7, expires = 600000\<rparr>], calls = []\<rparr>"

section \<open>The duplicate policy evaluator and the lock coordinator\<close>

text \<open>
  Modelled from the spec: the staging area and the descriptor of a staged or fetched file.
  The object store behind the staging area and the file handling of the ingest class are
  not among the sources; the spec addresses objects by their destination key and
  describes a file by its bytes and its optional checksum.
\<close>

record descriptor =
  bytes :: string
  checksum :: "string option"

type_synonym staging_area = "string \<rightharpoonup> descriptor"

text \<open>
  Modelled from the spec: the duplicate-handling modes and the decisions of the policy
  evaluator, which is part of the ingest class that is not among the sources.
\<close>

datatype DuplicateHandlingMode = Mode_error | Mode_skip | Mode_replace | Mode_version

datatype Decision = Proceed | Reject error | SkipKeepExisting | Replace | Version

definition DuplicateFileError :: "string \<Rightarrow> error" where
  "DuplicateFileError msg = Error ''DuplicateFile'' msg None"

text \<open>
  Modelled from the spec: two files are known to be the same when both checksums are
  there and equal; checksums that cannot be compared count as different.
\<close>

definition identical :: "descriptor \<Rightarrow> descriptor \<Rightarrow> bool" where
  "identical existing incoming =
     (case (checksum existing, checksum incoming) of
        (Some a, Some b) \<Rightarrow> a = b
      | _ \<Rightarrow> False)"

text \<open>
  Modelled from the spec: \<open>evaluate\<close> of the duplicate policy evaluator (the ingest class
  is not among the sources). No existing file: proceed. Mode \<open>skip\<close> with an existing
  file: keep the existing file. An identical existing file under any other mode: proceed.
  A different existing file: reject under \<open>error\<close>, replace under \<open>replace\<close>, keep both
  under \<open>version\<close>.
\<close>

definition evaluate :: "descriptor option \<Rightarrow> descriptor \<Rightarrow> DuplicateHandlingMode \<Rightarrow> Decision" where
  "evaluate existingFile incoming mode =
     (case existingFile of
        None \<Rightarrow> Proceed
      | Some existing \<Rightarrow>
          (case mode of
             Mode_skip \<Rightarrow> SkipKeepExisting
           | Mode_error \<Rightarrow>
               if identical existing incoming then Proceed
               else Reject (DuplicateFileError ''destination file already exists'')
           | Mode_replace \<Rightarrow> if identical existing incoming then Proceed else Replace
           | Mode_version \<Rightarrow> if identical existing incoming then Proceed else Version))"

text \<open>
  Modelled from the spec: the orchestrator's step for one fetched file (the ingest class
  is not among the sources). The decision is applied to the staging area: on
  \<open>Reject\<close> nothing is staged and the granule is aborted; on \<open>Proceed\<close> and \<open>Replace\<close>
  the incoming bytes go to the destination key; on \<open>Version\<close> the incoming file is
  staged under a disambiguated key; on \<open>SkipKeepExisting\<close> the incoming bytes are
  discarded and the record points at the object that was there. The record is marked
  \<open>duplicate_found\<close> when an object was there before.
\<close>

definition stage_file ::
  "(string \<Rightarrow> string) \<Rightarrow> staging_area \<Rightarrow> string \<Rightarrow> granule_file \<Rightarrow> descriptor \<Rightarrow>
     DuplicateHandlingMode \<Rightarrow> (error + granule_file) \<times> staging_area" where
  "stage_file disambiguate area key f incoming mode =
     (case evaluate (area key) incoming mode of
        Proceed \<Rightarrow>
          (Inr (f\<lparr>fileSize := length (bytes incoming), duplicate_found := (area key \<noteq> None)\<rparr>),
           area(key \<mapsto> incoming))
      | Reject e \<Rightarrow> (Inl e, area)
      | SkipKeepExisting \<Rightarrow>
          (Inr (f\<lparr>fileSize := (case area key of None \<Rightarrow> 0 | Some existing \<Rightarrow> length (bytes existing)),
                 duplicate_found := True\<rparr>),
           area)
      | Replace \<Rightarrow>
          (Inr (f\<lparr>fileSize := length (bytes incoming), duplicate_found := True\<rparr>),
           area(key \<mapsto> incoming))
      | Version \<Rightarrow>
          (Inr (f\<lparr>fileSize := length (bytes incoming), duplicate_found := True\<rparr>),
           area(disambiguate key \<mapsto> incoming)))"

text \<open>
  Modelled from the spec: the lock coordinator (the lock module is not among the sources,
  and the task's calls of it are commented out). The shared table and the clock make up
  the state. One attempt of \<open>acquire\<close> is a conditional insert: it succeeds when the key
  is absent or its entry has expired, and then writes an entry of the caller that expires
  after the time to live. \<open>release\<close> deletes the entry of the caller's token.
\<close>

record lock_state =
  now :: nat
  table :: lock_table

definition conditional_insert :: "nat \<Rightarrow> lock_key \<Rightarrow> nat \<Rightarrow> lock_state \<Rightarrow> bool \<times> lock_state" where
  "conditional_insert caller k ttl s =
     (case table s k of
        None \<Rightarrow> (True, s\<lparr>table := (table s)(k \<mapsto> \<lparr>owner = caller, expires = now s + ttl\<rparr>)\<rparr>)
      | Some en \<Rightarrow>
          if now s < expires en then (False, s)
          else (True, s\<lparr>table := (table s)(k \<mapsto> \<lparr>owner = caller, expires = now s + ttl\<rparr>)\<rparr>))"

definition release :: "nat \<Rightarrow> lock_key \<Rightarrow> lock_state \<Rightarrow> lock_state" where
  "release caller k s =
     (case table s k of
        None \<Rightarrow> s
      | Some en \<Rightarrow> if owner en = caller then s\<lparr>table := (table s)(k := None)\<rparr> else s)"

text \<open>
  Modelled from the spec: concurrent callers. Their calls interleave as a sequence of
  atomic events on the shared table: an attempt of some caller's \<open>acquire\<close> on a key
  (callers that lose back off and try again later), a \<open>release\<close>, or time passing.
\<close>

datatype lock_event = Attempt nat lock_key nat | Release nat lock_key | Elapse nat

fun lock_step :: "lock_event \<Rightarrow> lock_state \<Rightarrow> lock_state" where
  "lock_step (Attempt caller k ttl) s = snd (conditional_insert caller k ttl s)"
| "lock_step (Release caller k) s = release caller k s"
| "lock_step (Elapse d) s = s\<lparr>now := now s + d\<rparr>"

fun lock_run :: "lock_event list \<Rightarrow> lock_state \<Rightarrow> lock_state" where
  "lock_run [] s = s"
| "lock_run (ev # evs) s = lock_run evs (lock_step ev s)"

section \<open>The staging path of a file\<close>





section \<open>Properties of \<open>download\<close>\<close>

lemma ingested_seq_length: "ingested_seq ing bucket gs s rs s' \<Longrightarrow> length rs = length gs"
  by (induction gs arbitrary: s rs) (auto split: prod.splits sum.splits list.splits)

lemma download_loop_ok:
  "download_loop ing bucket gs acc w = (Inr rs, w') \<Longrightarrow>
     \<exists>rs'. rs = acc @ rs' \<and> ingested_seq ing bucket gs (sys w) rs' (sys w') \<and>
       w' = w\<lparr>sys := sys w', calls := calls w @ ingest_calls bucket gs\<rparr>"
proof (induction gs arbitrary: acc w)
  case Nil
  then show ?case by (auto simp: ingest_calls_def)
next
  case (Cons g gs)
  obtain x s1 where st: "ingest ing g bucket (sys w) = (x, s1)" by (cases "ingest ing g bucket (sys w)")
  show ?case
  proof (cases x)
    case (Inl e)
    with st Cons.prems show ?thesis by simp
  next
    case (Inr r)
    let ?w1 = "w\<lparr>sys := s1, calls := calls w @ [Ingest g bucket]\<rparr>"
    from st Inr Cons.prems have "download_loop ing bucket gs (acc @ [r]) ?w1 = (Inr rs, w')" by simp
    from Cons.IH[OF this] obtain rs' where
      a: "rs = (acc @ [r]) @ rs'" and b: "ingested_seq ing bucket gs (sys ?w1) rs' (sys w')"
      and c: "w' = ?w1\<lparr>sys := sys w', calls := calls ?w1 @ ingest_calls bucket gs\<rparr>" by blast
    have "rs = acc @ (r # rs')" using a by simp
    moreover have "ingested_seq ing bucket (g # gs) (sys w) (r # rs') (sys w')" using b st Inr by simp
    moreover have "w' = w\<lparr>sys := sys w', calls := calls w @ ingest_calls bucket (g # gs)\<rparr>"
      using c by (simp add: ingest_calls_def)
    ultimately show ?thesis by blast
  qed
qed

lemma download_loop_complete:
  "ingested_seq ing bucket gs (sys w) rs s' \<Longrightarrow>
     download_loop ing bucket gs acc w =
       (Inr (acc @ rs), w\<lparr>sys := s', calls := calls w @ ingest_calls bucket gs\<rparr>)"
proof (induction gs arbitrary: acc w rs)
  case Nil
  then show ?case by (simp add: ingest_calls_def)
next
  case (Cons g gs)
  then show ?case
    by (auto simp: ingest_calls_def split: prod.splits sum.splits list.splits)
qed

lemma download_loop_fails:
  "ingested_seq ing bucket pre (sys w) rs s1 \<Longrightarrow> ingest ing g bucket s1 = (Inl e, s2) \<Longrightarrow>
     download_loop ing bucket (pre @ g # post) acc w =
       (Inl e, w\<lparr>sys := s2, calls := calls w @ ingest_calls bucket (pre @ [g])\<rparr>)"
proof (induction pre arbitrary: acc w rs)
  case Nil
  then show ?case by (simp add: ingest_calls_def)
next
  case (Cons a pre)
  then show ?case
    by (auto simp: ingest_calls_def split: prod.splits sum.splits list.splits)
qed

lemma download_loop_calls:
  "\<exists>n. calls (snd (download_loop ing bucket gs acc w)) = calls w @ ingest_calls bucket (take n gs)"
proof (induction gs arbitrary: acc w)
  case Nil
  then show ?case by (simp add: ingest_calls_def)
next
  case (Cons g gs)
  obtain x s1 where st: "ingest ing g bucket (sys w) = (x, s1)" by (cases "ingest ing g bucket (sys w)")
  show ?case
  proof (cases x)
    case (Inl e)
    have "calls (snd (download_loop ing bucket (g # gs) acc w)) = calls w @ ingest_calls bucket (take 1 (g # gs))"
      using st Inl by (simp add: ingest_calls_def)
    then show ?thesis by blast
  next
    case (Inr r)
    let ?w1 = "w\<lparr>sys := s1, calls := calls w @ [Ingest g bucket]\<rparr>"
    from Cons.IH[of "acc @ [r]" ?w1] obtain n where
      "calls (snd (download_loop ing bucket gs (acc @ [r]) ?w1)) = calls ?w1 @ ingest_calls bucket (take n gs)" by blast
    then have "calls (snd (download_loop ing bucket (g # gs) acc w)) = calls w @ ingest_calls bucket (take (Suc n) (g # gs))"
      using st Inr by (simp add: ingest_calls_def)
    then show ?thesis by blast
  qed
qed

lemma download_loop_locks:
  "locks (snd (download_loop ing bucket gs acc w)) = locks w"
  by (induction gs arbitrary: acc w) (auto split: prod.splits sum.splits)

lemma download_loop_set_locks:
  "download_loop ing bucket gs acc (w\<lparr>locks := L\<rparr>) =
     (fst (download_loop ing bucket gs acc w), (snd (download_loop ing bucket gs acc w))\<lparr>locks := L\<rparr>)"
proof (induction gs arbitrary: acc w)
  case Nil
  then show ?case by simp
next
  case (Cons g gs)
  obtain x s1 where st: "ingest ing g bucket (sys w) = (x, s1)" by (cases "ingest ing g bucket (sys w)")
  show ?case
  proof (cases x)
    case (Inl e)
    with st show ?thesis by simp
  next
    case (Inr r)
    let ?w1 = "w\<lparr>sys := s1, calls := calls w @ [Ingest g bucket]\<rparr>"
    have eq: "w\<lparr>locks := L, sys := s1, calls := calls w @ [Ingest g bucket]\<rparr> = ?w1\<lparr>locks := L\<rparr>"
      by simp
    show ?thesis using st Inr Cons.IH[of "acc @ [r]" ?w1] by (simp add: eq del: world.update_convs)
  qed
qed


lemma download_ok_iff:
  "download ing bucket prov gs w = (Inr rs, w') \<longleftrightarrow>
     gs \<noteq> [] \<and> ingested_seq ing bucket gs (sys w) rs (sys w') \<and>
     w' = w\<lparr>sys := sys w', calls := calls w @ ingest_calls bucket gs\<rparr>"
proof
  assume a: "download ing bucket prov gs w = (Inr rs, w')"
  obtain x w1 where l: "download_loop ing bucket gs [] w = (x, w1)"
    by (cases "download_loop ing bucket gs [] w")
  from a l have ne: "gs \<noteq> []" and x: "x = Inr rs" and w1: "w1 = w'"
    by (auto simp: download_def split: sum.splits list.splits)
  from download_loop_ok[of ing bucket gs "[]" w rs w'] l x w1 ne
  show "gs \<noteq> [] \<and> ingested_seq ing bucket gs (sys w) rs (sys w') \<and>
     w' = w\<lparr>sys := sys w', calls := calls w @ ingest_calls bucket gs\<rparr>"
    by auto
next
  assume b: "gs \<noteq> [] \<and> ingested_seq ing bucket gs (sys w) rs (sys w') \<and>
     w' = w\<lparr>sys := sys w', calls := calls w @ ingest_calls bucket gs\<rparr>"
  then have "download_loop ing bucket gs [] w = (Inr rs, w')"
    using download_loop_complete[of ing bucket gs w rs "sys w'" "[]"] by simp
  with b show "download ing bucket prov gs w = (Inr rs, w')"
    by (auto simp: download_def split: list.splits)
qed

lemma download_empty:
  "download ing bucket prov [] w = (Inl (TypeError ''Cannot read property 'granuleId' of undefined''), w)"
  by (simp add: download_def)

lemma download_calls:
  "\<exists>n. calls (snd (download ing bucket prov gs w)) = calls w @ ingest_calls bucket (take n gs)"
proof -
  obtain x w1 where l: "download_loop ing bucket gs [] w = (x, w1)"
    by (cases "download_loop ing bucket gs [] w")
  from download_loop_calls[of ing bucket gs "[]" w] l obtain n where
    "calls w1 = calls w @ ingest_calls bucket (take n gs)" by auto
  with l have "calls (snd (download ing bucket prov gs w)) = calls w @ ingest_calls bucket (take n gs)"
    by (simp add: download_def split: sum.splits list.splits)
  then show ?thesis by blast
qed

text \<open>
  Claim C10. \<open>download\<close> ingests the granules strictly one after the other: the calls it
  makes on the adapter are always the ingests of a front part of the input list, in the
  order of the list. It resolves exactly when the list is not empty and every granule's
  ingest succeeds in the state the one before it left, and what it then returns is
  exactly one updated record per input granule, in the order of the input list. (For an
  empty list there is no success: the debug message after the loop reads
  \<open>granules[0].granuleId\<close> and throws.)
\<close>

theorem download_sequential_in_order:
  "(download ing bucket prov gs w = (Inr rs, w') \<longleftrightarrow>
      gs \<noteq> [] \<and> ingested_seq ing bucket gs (sys w) rs (sys w') \<and>
      w' = w\<lparr>sys := sys w', calls := calls w @ ingest_calls bucket gs\<rparr>) \<and>
   (download ing bucket prov gs w = (Inr rs, w') \<longrightarrow> length rs = length gs) \<and>
   (\<exists>n. calls (snd (download ing bucket prov gs w)) = calls w @ ingest_calls bucket (take n gs))"
proof -
  have "download ing bucket prov gs w = (Inr rs, w') \<longrightarrow> length rs = length gs"
    using ingested_seq_length[of ing bucket gs "sys w" rs "sys w'"] by (simp add: download_ok_iff)
  then show ?thesis using download_ok_iff[of ing bucket prov gs w rs w'] download_calls[of ing bucket prov gs w]
    by blast
qed

text \<open>
  Claim C10 on two granules: the theorem gives the run of \<open>download\<close> from the two
  ingests, and the length of its result.
\<close>

theorem download_sequential_in_order_witness:
  "download stub_adapter ''my-private'' s3_provider [gran ''g1'', gran ''g2''] world0 =
     (Inr [gran ''g1'', gran ''g2''],
      world0\<lparr>sys := [''my-private/g1'', ''my-private/g2''],
        calls := [Ingest (gran ''g1'') ''my-private'', Ingest (gran ''g2'') ''my-private'']\<rparr>) \<and>
   length [gran ''g1'', gran ''g2''] = length [gran ''g1'', gran ''g2'']"
proof -
  let ?gs = "[gran ''g1'', gran ''g2'']"
  let ?w' = "world0\<lparr>sys := [''my-private/g1'', ''my-private/g2''],
        calls := [Ingest (gran ''g1'') ''my-private'', Ingest (gran ''g2'') ''my-private'']\<rparr>"
  have a: "?gs \<noteq> []" by simp
  have b: "ingested_seq stub_adapter ''my-private'' ?gs (sys world0) ?gs (sys ?w')"
    by (simp add: stub_adapter_def stub_ingest_def gran_def world0_def)
  have c: "?w' = world0\<lparr>sys := sys ?w', calls := calls world0 @ ingest_calls ''my-private'' ?gs\<rparr>"
    by (simp add: world0_def ingest_calls_def)
  have d: "download stub_adapter ''my-private'' s3_provider ?gs world0 = (Inr ?gs, ?w')"
    using download_sequential_in_order [of stub_adapter "''my-private''" s3_provider ?gs world0 ?gs ?w']
      a b c by blast
  show ?thesis using d by simp
qed

lemma ingested_before_failure_prefix:
  "ingested_seq ing bucket pre s rs s1 \<Longrightarrow> ingest ing g bucket s1 = (Inl e, s2) \<Longrightarrow>
     ingested_before_failure ing bucket (pre @ g # post) s = rs"
  by (induction pre arbitrary: s rs) (auto split: prod.splits sum.splits list.splits)

text \<open>
  Claim C4, as amended. Whenever the ingest of a granule of the list fails, after the
  granules before it were ingested, \<open>download\<close> stops there and rejects with exactly
  the error that ingest raised, thrown again unchanged: no later granule is ingested, the
  effects of the earlier ingests stay in the world, and the records of the granules
  already ingested (the local \<open>updatedGranules\<close>, here \<open>rs\<close>) are not part of what the
  caller gets.
\<close>

theorem download_rethrows_ingest_error:
  assumes "ingested_seq ing bucket pre (sys w) rs s1"
    and "ingest ing g bucket s1 = (Inl e, s2)"
  shows "download ing bucket prov (pre @ g # post) w =
           (Inl e, w\<lparr>sys := s2, calls := calls w @ ingest_calls bucket (pre @ [g])\<rparr>) \<and>
         ingested_before_failure ing bucket (pre @ g # post) (sys w) = rs"
  using download_loop_fails[OF assms, of post "[]"] ingested_before_failure_prefix[OF assms]
  by (simp add: download_def)

text \<open>
  The amended claim at a list of three granules whose second is missing at the provider.
\<close>

theorem download_rethrows_ingest_error_witness:
  "download stub_adapter ''my-private'' s3_provider ([gran ''g1''] @ gran ''missing'' # [gran ''g3'']) world0 =
     (Inl (Error ''FileNotFound'' ''no such file'' None),
      world0\<lparr>sys := [''my-private/g1''],
        calls := calls world0 @ ingest_calls ''my-private'' ([gran ''g1''] @ [gran ''missing''])\<rparr>) \<and>
   ingested_before_failure stub_adapter ''my-private'' ([gran ''g1''] @ gran ''missing'' # [gran ''g3''])
     (sys world0) = [gran ''g1'']"
proof -
  have a: "ingested_seq stub_adapter ''my-private'' [gran ''g1''] (sys world0) [gran ''g1'']
             [''my-private/g1'']"
    by (simp add: stub_adapter_def stub_ingest_def gran_def world0_def)
  have b: "ingest stub_adapter (gran ''missing'') ''my-private'' [''my-private/g1''] =
             (Inl (Error ''FileNotFound'' ''no such file'' None), [''my-private/g1''])"
    by (simp add: stub_adapter_def stub_ingest_def gran_def)
  show ?thesis using download_rethrows_ingest_error [OF a b] by simp
qed

text \<open>
  Claim C4 as stated fails: two invocations that ingested different granules before the
  failure reject with one and the same error, so the granules already ingested cannot
  be told from the error the caller gets.
\<close>

theorem download_error_hides_progress:
  "fst (download stub_adapter ''my-private'' s3_provider [gran ''g1'', gran ''missing''] world0) =
     Inl (Error ''FileNotFound'' ''no such file'' None) \<and>
   fst (download stub_adapter ''my-private'' s3_provider [gran ''g2'', gran ''missing''] world0) =
     Inl (Error ''FileNotFound'' ''no such file'' None) \<and>
   ingested_before_failure stub_adapter ''my-private'' [gran ''g1'', gran ''missing''] (sys world0) =
     [gran ''g1''] \<and>
   ingested_before_failure stub_adapter ''my-private'' [gran ''g2'', gran ''missing''] (sys world0) =
     [gran ''g2''] \<and>
   gran ''g1'' \<noteq> gran ''g2''"
  by (simp add: download_def stub_adapter_def stub_ingest_def gran_def world0_def)

text \<open>
  Claim C2 as stated fails: with the lock of the provider and the granule held for longer
  than a maximum wait of five seconds, \<open>download\<close> ingests the granule and resolves.
\<close>

theorem download_proceeds_under_lock:
  "lock_unavailable (locks world_locked) (provider_id s3_provider, granuleId (gran ''g1'')) 0 5000 \<and>
   download stub_adapter ''my-private'' s3_provider [gran ''g1''] world_locked =
     (Inr [gran ''g1''],
      world_locked\<lparr>sys := [''my-private/g1''], calls := [Ingest (gran ''g1'') ''my-private'']\<rparr>)"
  by (simp add: lock_unavailable_def download_def stub_adapter_def stub_ingest_def gran_def
      world_locked_def s3_provider_def)

lemma download_loop_rejects:
  "download_loop ing bucket gs acc w = (Inl e, w') \<Longrightarrow>
     \<exists>pre g post rs s1 s2. gs = pre @ g # post \<and> ingested_seq ing bucket pre (sys w) rs s1 \<and>
       ingest ing g bucket s1 = (Inl e, s2)"
proof (induction gs arbitrary: acc w)
  case Nil
  then show ?case by simp
next
  case (Cons g gs)
  obtain x s1 where st: "ingest ing g bucket (sys w) = (x, s1)" by (cases "ingest ing g bucket (sys w)")
  show ?case
  proof (cases x)
    case (Inl e0)
    with st Cons.prems have "e0 = e" by simp
    with st Inl have "g # gs = [] @ g # gs \<and> ingested_seq ing bucket [] (sys w) [] (sys w) \<and>
        ingest ing g bucket (sys w) = (Inl e, s1)" by simp
    then show ?thesis by blast
  next
    case (Inr r)
    let ?w1 = "w\<lparr>sys := s1, calls := calls w @ [Ingest g bucket]\<rparr>"
    from st Inr Cons.prems have "download_loop ing bucket gs (acc @ [r]) ?w1 = (Inl e, w')" by simp
    from Cons.IH[OF this] obtain pre g' post rs t1 t2 where
      a: "gs = pre @ g' # post" and b: "ingested_seq ing bucket pre (sys ?w1) rs t1"
      and c: "ingest ing g' bucket t1 = (Inl e, t2)" by blast
    have "g # gs = (g # pre) @ g' # post" using a by simp
    moreover have "ingested_seq ing bucket (g # pre) (sys w) (r # rs) t1" using b st Inr by simp
    ultimately show ?thesis using c by blast
  qed
qed

lemma download_rejects:
  assumes "fst (download ing bucket prov gs w) = Inl e"
  shows "(gs = [] \<and> e = TypeError ''Cannot read property 'granuleId' of undefined'') \<or>
         (\<exists>pre g post rs s1 s2. gs = pre @ g # post \<and> ingested_seq ing bucket pre (sys w) rs s1 \<and>
            ingest ing g bucket s1 = (Inl e, s2))"
proof -
  obtain x w1 where l: "download_loop ing bucket gs [] w = (x, w1)"
    by (cases "download_loop ing bucket gs [] w")
  show ?thesis
  proof (cases x)
    case (Inl e0)
    with l assms have "e0 = e" by (simp add: download_def)
    with l Inl show ?thesis using download_loop_rejects[of ing bucket gs "[]" w e w1] by simp
  next
    case (Inr rs)
    with l assms show ?thesis by (cases gs) (simp_all add: download_def)
  qed
qed

lemma download_resolves:
  assumes "gs \<noteq> []" and "ingested_seq ing bucket gs (sys w) rs s'"
  shows "download ing bucket prov gs w =
           (Inr rs, w\<lparr>sys := s', calls := calls w @ ingest_calls bucket gs\<rparr>)"
  using assms download_loop_complete[of ing bucket gs w rs s' "[]"]
  by (cases gs) (simp_all add: download_def)

text \<open>
  Claim C2, as amended. \<open>download\<close> does not try to acquire the lock. Whatever the lock
  table holds, held and unexpired locks included: it leaves the table as it found it and
  its result and its effect on the adapter's world are those under any other table; when
  the list is not empty and every ingest succeeds it ingests all the granules and
  resolves with their records; and when it rejects, the error is the one an ingest raised
  (or the \<open>TypeError\<close> of the empty list), so the \<open>ResourcesLockedError\<close> branch is never
  taken.
\<close>

theorem download_ignores_locks:
  "download ing bucket prov gs (w\<lparr>locks := L\<rparr>) =
     (fst (download ing bucket prov gs w), (snd (download ing bucket prov gs w))\<lparr>locks := L\<rparr>) \<and>
   locks (snd (download ing bucket prov gs w)) = locks w \<and>
   (gs \<noteq> [] \<and> ingested_seq ing bucket gs (sys w) rs s' \<longrightarrow>
      download ing bucket prov gs w =
        (Inr rs, w\<lparr>sys := s', calls := calls w @ ingest_calls bucket gs\<rparr>)) \<and>
   (fst (download ing bucket prov gs w) = Inl e \<longrightarrow>
      (gs = [] \<and> e = TypeError ''Cannot read property 'granuleId' of undefined'') \<or>
      (\<exists>pre g post got s1 s2. gs = pre @ g # post \<and>
         ingested_seq ing bucket pre (sys w) got s1 \<and> ingest ing g bucket s1 = (Inl e, s2)))"
proof -
  obtain x w1 where l: "download_loop ing bucket gs [] w = (x, w1)"
    by (cases "download_loop ing bucket gs [] w")
  have a: "download_loop ing bucket gs [] (w\<lparr>locks := L\<rparr>) = (x, w1\<lparr>locks := L\<rparr>)"
    using download_loop_set_locks[where ing=ing and bucket=bucket and gs=gs and acc="[]" and w=w and L=L] l by simp
  have b: "locks w1 = locks w"
    using download_loop_locks[of ing bucket gs "[]" w] l by simp
  have c: "download ing bucket prov gs (w\<lparr>locks := L\<rparr>) =
     (fst (download ing bucket prov gs w), (snd (download ing bucket prov gs w))\<lparr>locks := L\<rparr>) \<and>
   locks (snd (download ing bucket prov gs w)) = locks w"
    using l a b by (simp add: download_def split: sum.splits list.splits)
  show ?thesis using c download_resolves[of gs ing bucket w rs s' prov] download_rejects[of ing bucket prov gs w e]
    by blast
qed

text \<open>
  The amended claim in the world in which the lock of the provider and the granule is
  held beyond the maximum wait: the granule is ingested and \<open>download\<close> resolves; and a
  rejection is the error of the ingest that failed.
\<close>

theorem download_ignores_locks_witness:
  "lock_unavailable (locks world_locked) (provider_id s3_provider, granuleId (gran ''g1'')) 0 5000 \<and>
   download stub_adapter ''my-private'' s3_provider [gran ''g1''] world_locked =
     (Inr [gran ''g1''],
      world_locked\<lparr>sys := [''my-private/g1''],
        calls := calls world_locked @ ingest_calls ''my-private'' [gran ''g1'']\<rparr>) \<and>
   (\<exists>pre g post got s1 s2. [gran ''missing''] = pre @ g # post \<and>
      ingested_seq stub_adapter ''my-private'' pre (sys world_locked) got s1 \<and>
      ingest stub_adapter g ''my-private'' s1 = (Inl (Error ''FileNotFound'' ''no such file'' None), s2))"
proof -
  have u: "lock_unavailable (locks world_locked) (provider_id s3_provider, granuleId (gran ''g1'')) 0 5000"
    by (simp add: lock_unavailable_def world_locked_def s3_provider_def gran_def)
  have a: "[gran ''g1''] \<noteq> [] \<and>
           ingested_seq stub_adapter ''my-private'' [gran ''g1''] (sys world_locked) [gran ''g1'']
             [''my-private/g1'']"
    by (simp add: stub_adapter_def stub_ingest_def gran_def world_locked_def)
  have r: "download stub_adapter ''my-private'' s3_provider [gran ''g1''] world_locked =
     (Inr [gran ''g1''],
      world_locked\<lparr>sys := [''my-private/g1''],
        calls := calls world_locked @ ingest_calls ''my-private'' [gran ''g1'']\<rparr>)"
    using download_ignores_locks [where ing = stub_adapter and bucket = "''my-private''"
        and prov = s3_provider and gs = "[gran ''g1'']" and w = world_locked
        and rs = "[gran ''g1'']" and s' = "[''my-private/g1'']"] a by blast
  have f: "fst (download stub_adapter ''my-private'' s3_provider [gran ''missing''] world_locked) =
             Inl (Error ''FileNotFound'' ''no such file'' None)"
    by (simp add: download_def stub_adapter_def stub_ingest_def gran_def world_locked_def)
  have e: "\<exists>pre g post got s1 s2. [gran ''missing''] = pre @ g # post \<and>
      ingested_seq stub_adapter ''my-private'' pre (sys world_locked) got s1 \<and>
      ingest stub_adapter g ''my-private'' s1 = (Inl (Error ''FileNotFound'' ''no such file'' None), s2)"
    using download_ignores_locks [where ing = stub_adapter and bucket = "''my-private''"
        and prov = s3_provider and gs = "[gran ''missing'']" and w = world_locked
        and e = "Error ''FileNotFound'' ''no such file'' None"] f
    by blast
  show ?thesis using u r e by blast
qed

section \<open>Properties of \<open>syncGranule\<close>\<close>

lemma count_End_ingest_calls: "count_list (ingest_calls bucket gs) End = 0"
  by (induction gs) (simp_all add: ingest_calls_def)

lemma count_list_append: "count_list (xs @ ys) x = count_list xs x + count_list ys x"
  by (induction xs) simp_all

lemma download_count_End:
  "count_list (calls (snd (download ing bucket prov gs w))) End = count_list (calls w) End"
proof -
  from download_calls[of ing bucket prov gs w] obtain n where
    "calls (snd (download ing bucket prov gs w)) = calls w @ ingest_calls bucket (take n gs)" by blast
  then show ?thesis by (simp add: count_list_append count_End_ingest_calls)
qed

lemma call_end_defined:
  "ingest_end ing = Some f \<Longrightarrow> f (sys w) = (thrown, s') \<Longrightarrow>
     call_end ing w = (thrown, w\<lparr>sys := s', calls := calls w @ [End]\<rparr>)"
  by (simp add: call_end_def)

lemma call_end_undefined: "ingest_end ing = None \<Longrightarrow> call_end ing w = (None, w)"
  by (simp add: call_end_def)

lemma syncGranule_constructed:
  assumes "provider (meta ev) = Some p" and "selector ''ingest'' (protocol p) = Inr cls"
  shows "syncGranule selector ev w =
    (case download (new_ingest cls ev p) (private_name (buckets (meta ev))) p (granules (payload ev))
            (w\<lparr>calls := calls w @ [new_call ev p]\<rparr>) of
       (Inr grans, w2) \<Rightarrow>
         (case then_handler (new_ingest cls ev p) (collection (meta ev)) grans w2 of
            (Inr out, w3) \<Rightarrow> (Resolved out, w3)
          | (Inl thrown, w3) \<Rightarrow> catch_handler (new_ingest cls ev p) thrown w3)
     | (Inl e, w2) \<Rightarrow> catch_handler (new_ingest cls ev p) e w2)"
  using assms by (simp add: syncGranule_def Let_def)

text \<open>
  Claim C7. When the event's metadata has no provider, \<open>syncGranule\<close> returns a promise
  rejected with \<open>ProviderNotFound\<close> and the world is what it was: no adapter was
  constructed or called, and the staging area is unchanged.
\<close>

theorem syncGranule_no_provider:
  assumes "provider (meta ev) = None"
  shows "syncGranule selector ev w = (Rejected (ProviderNotFound ''Provider info not provided''), w)"
  using assms by (simp add: syncGranule_def)

text \<open>
  Claim C7 at an event without a provider.
\<close>

theorem syncGranule_no_provider_witness:
  "syncGranule stub_selector (sync_event None (Some (coll ''MOD09GQ'')) [gran ''g1'']) world0 =
     (Rejected (ProviderNotFound ''Provider info not provided''), world0)"
  using syncGranule_no_provider [of "sync_event None (Some (coll ''MOD09GQ'')) [gran ''g1'']" stub_selector world0]
  by (simp add: sync_event_def)

text \<open>
  What holds of the teardown. \<open>download\<close> itself never calls \<open>end\<close>. When \<open>download\<close>
  rejects, the \<open>catch\<close> handler runs the adapter's \<open>end\<close> once, on the state \<open>download\<close>
  left. When \<open>download\<close> resolves and \<open>end\<close> returns, the \<open>then\<close> handler has run it once
  and \<open>syncGranule\<close> resolves. When \<open>download\<close> resolves and \<open>end\<close> throws in the \<open>then\<close>
  handler, the \<open>catch\<close> handler runs \<open>end\<close> a second time, on the state the first call
  left.
\<close>

lemma syncGranule_download_rejected:
  assumes "provider (meta ev) = Some p" and "selector ''ingest'' (protocol p) = Inr cls"
    and "ingest_end (new_ingest cls ev p) = Some f"
    and "download (new_ingest cls ev p) (private_name (buckets (meta ev))) p
               (granules (payload ev)) (w\<lparr>calls := calls w @ [new_call ev p]\<rparr>) = (Inl e, w2)"
    and "f (sys w2) = (thrown, s3)"
  shows "syncGranule selector ev w =
           (Rejected (case thrown of None \<Rightarrow> errorToThrow e | Some t \<Rightarrow> t),
            w2\<lparr>sys := s3, calls := calls w2 @ [End]\<rparr>) \<and>
         count_list (calls w2) End = count_list (calls w) End"
proof -
  let ?d = "download (new_ingest cls ev p) (private_name (buckets (meta ev))) p
               (granules (payload ev)) (w\<lparr>calls := calls w @ [new_call ev p]\<rparr>)"
  have "count_list (calls (snd ?d)) End = count_list (calls (w\<lparr>calls := calls w @ [new_call ev p]\<rparr>)) End"
    by (rule download_count_End)
  then have c: "count_list (calls w2) End = count_list (calls w) End"
    using assms(4) by (simp add: count_list_append new_call_def)
  show ?thesis
    using syncGranule_constructed[where selector=selector and ev=ev and p=p and cls=cls and w=w,
        OF assms(1,2)] assms(4) call_end_defined[OF assms(3,5)] c
    by (simp add: catch_handler_def split: option.splits)
qed

lemma syncGranule_download_resolved:
  assumes "provider (meta ev) = Some p" and "selector ''ingest'' (protocol p) = Inr cls"
    and "ingest_end (new_ingest cls ev p) = Some f"
    and "download (new_ingest cls ev p) (private_name (buckets (meta ev))) p
               (granules (payload ev)) (w\<lparr>calls := calls w @ [new_call ev p]\<rparr>) = (Inr grans, w2)"
    and "f (sys w2) = (None, s3)"
  shows "(\<exists>proc. syncGranule selector ev w =
            (Resolved \<lparr>output_granules = grans, output_process = proc\<rparr>,
             w2\<lparr>sys := s3, calls := calls w2 @ [End]\<rparr>)) \<and>
         count_list (calls w2) End = count_list (calls w) End"
proof -
  let ?d = "download (new_ingest cls ev p) (private_name (buckets (meta ev))) p
               (granules (payload ev)) (w\<lparr>calls := calls w @ [new_call ev p]\<rparr>)"
  have "count_list (calls (snd ?d)) End = count_list (calls (w\<lparr>calls := calls w @ [new_call ev p]\<rparr>)) End"
    by (rule download_count_End)
  then have c: "count_list (calls w2) End = count_list (calls w) End"
    using assms(4) by (simp add: count_list_append new_call_def)
  show ?thesis
    using syncGranule_constructed[where selector=selector and ev=ev and p=p and cls=cls and w=w,
        OF assms(1,2)] assms(4) call_end_defined[OF assms(3,5)] c
    by (simp add: then_handler_def)
qed

lemma syncGranule_then_handler_throws:
  assumes "provider (meta ev) = Some p" and "selector ''ingest'' (protocol p) = Inr cls"
    and "ingest_end (new_ingest cls ev p) = Some f"
    and "download (new_ingest cls ev p) (private_name (buckets (meta ev))) p
               (granules (payload ev)) (w\<lparr>calls := calls w @ [new_call ev p]\<rparr>) = (Inr grans, w2)"
    and "f (sys w2) = (Some t1, s3)" and "f s3 = (thrown, s4)"
  shows "syncGranule selector ev w =
           (Rejected (case thrown of None \<Rightarrow> errorToThrow t1 | Some t2 \<Rightarrow> t2),
            w2\<lparr>sys := s4, calls := calls w2 @ [End, End]\<rparr>)"
proof -
  let ?w3 = "w2\<lparr>sys := s3, calls := calls w2 @ [End]\<rparr>"
  have a: "call_end (new_ingest cls ev p) w2 = (Some t1, ?w3)"
    by (rule call_end_defined[OF assms(3,5)])
  have "f (sys ?w3) = (thrown, s4)" using assms(6) by simp
  then have b: "call_end (new_ingest cls ev p) ?w3 =
                  (thrown, ?w3\<lparr>sys := s4, calls := calls ?w3 @ [End]\<rparr>)"
    by (rule call_end_defined[OF assms(3)])
  show ?thesis
    using syncGranule_constructed[where selector=selector and ev=ev and p=p and cls=cls and w=w,
        OF assms(1,2)] assms(4) a b
    by (simp add: then_handler_def catch_handler_def split: option.splits)
qed

lemma syncGranule_no_end:
  assumes "provider (meta ev) = Some p" and "selector ''ingest'' (protocol p) = Inr cls"
    and "ingest_end (new_ingest cls ev p) = None"
  shows "count_list (calls (snd (syncGranule selector ev w))) End = count_list (calls w) End"
proof -
  let ?d = "download (new_ingest cls ev p) (private_name (buckets (meta ev))) p
               (granules (payload ev)) (w\<lparr>calls := calls w @ [new_call ev p]\<rparr>)"
  obtain x w2 where d: "?d = (x, w2)" by (cases ?d)
  have "count_list (calls (snd ?d)) End = count_list (calls (w\<lparr>calls := calls w @ [new_call ev p]\<rparr>)) End"
    by (rule download_count_End)
  then have c: "count_list (calls w2) End = count_list (calls w) End"
    using d by (simp add: count_list_append new_call_def)
  show ?thesis
    using syncGranule_constructed[where selector=selector and ev=ev and p=p and cls=cls and w=w,
        OF assms(1,2)] d c call_end_undefined[OF assms(3)]
    by (cases x) (simp_all add: then_handler_def catch_handler_def)
qed

lemmas stub_defs =
  syncGranule_def sync_event_def s3_provider_def sftp_provider_def stub_selector_def new_ingest_def
  new_call_def download_def stub_adapter_def stub_adapter_end_throws_def stub_ingest_def gran_def
  world0_def call_end_def then_handler_def catch_handler_def fileStagingDir_def path_join_def
  normalize_def resolve_duplicateHandling_def truthy_def coll_def errorToThrow_def toString_def
  str_includes_def sublist_code

lemma stub_sync_ok:
  "syncGranule stub_selector (sync_event (Some s3_provider) (Some (coll ''MOD09GQ'')) [gran ''g1'']) world0 =
   (Resolved \<lparr>output_granules = [gran ''g1''], output_process = None\<rparr>,
    \<lparr>sys = [''my-private/g1'', ''closed''], locks = Map.empty,
     calls = [New \<lparr>private_name = ''my-private''\<rparr> (Some (coll ''MOD09GQ'')) s3_provider
                ''file-staging/my-stack'' False None,
              Ingest (gran ''g1'') ''my-private'', End]\<rparr>)"
  by (simp add: stub_defs)

text \<open>
  Claim C3 on an adapter whose \<open>end\<close> throws, with a \<open>download\<close> that resolves: the
  \<open>then\<close> handler calls \<open>end\<close>, its exception reaches the \<open>catch\<close> handler, and that calls
  \<open>end\<close> again. The teardown is invoked twice, not exactly once.
\<close>

theorem syncGranule_end_called_twice:
  "fst (download stub_adapter_end_throws ''my-private'' sftp_provider [gran ''g1'']
         (world0\<lparr>calls := [new_call (sync_event (Some sftp_provider) (Some (coll ''MOD09GQ'')) [gran ''g1''])
                               sftp_provider]\<rparr>)) = Inr [gran ''g1''] \<and>
   syncGranule stub_selector (sync_event (Some sftp_provider) (Some (coll ''MOD09GQ'')) [gran ''g1'']) world0 =
     (Rejected (Error ''Error'' ''session is not open'' None),
      \<lparr>sys = [''my-private/g1'', ''end failed'', ''end failed''], locks = Map.empty,
       calls = [New \<lparr>private_name = ''my-private''\<rparr> (Some (coll ''MOD09GQ'')) sftp_provider
                  ''file-staging/my-stack'' False None,
                Ingest (gran ''g1'') ''my-private'', End, End]\<rparr>) \<and>
   count_list (calls (snd (syncGranule stub_selector
       (sync_event (Some sftp_provider) (Some (coll ''MOD09GQ'')) [gran ''g1'']) world0))) End = 2"
  by (simp add: stub_defs)

text \<open>
  Claim C6, as amended. When \<open>download\<close> rejects with an error \<open>e\<close> and the adapter's
  \<open>end\<close>, which the \<open>catch\<close> handler calls first, returns: \<open>syncGranule\<close> rejects with
  \<open>RemoteResourceError\<close> if the string form of \<open>e\<close> contains \<open>ECONNREFUSED\<close>; with
  \<open>ConnectionTimeout\<close> if it does not and \<open>e.details.status\<close> is \<open>timeout\<close>; and with \<open>e\<close>
  itself, unchanged, otherwise. When that call of \<open>end\<close> throws, \<open>syncGranule\<close> rejects
  with what \<open>end\<close> threw.
\<close>

theorem syncGranule_error_mapping:
  assumes "provider (meta ev) = Some p" and "selector ''ingest'' (protocol p) = Inr cls"
    and "download (new_ingest cls ev p) (private_name (buckets (meta ev))) p
               (granules (payload ev)) (w\<lparr>calls := calls w @ [new_call ev p]\<rparr>) = (Inl e, w2)"
  shows "(fst (call_end (new_ingest cls ev p) w2) = None \<and>
          str_includes (toString e) ''ECONNREFUSED'' \<longrightarrow>
            fst (syncGranule selector ev w) = Rejected (RemoteResourceError ''Connection Refused'')) \<and>
         (fst (call_end (new_ingest cls ev p) w2) = None \<and>
          \<not> str_includes (toString e) ''ECONNREFUSED'' \<and> err_details_status e = Some ''timeout'' \<longrightarrow>
            fst (syncGranule selector ev w) = Rejected (ConnectionTimeout ''connection Timed out'')) \<and>
         (fst (call_end (new_ingest cls ev p) w2) = None \<and>
          \<not> str_includes (toString e) ''ECONNREFUSED'' \<and> err_details_status e \<noteq> Some ''timeout'' \<longrightarrow>
            fst (syncGranule selector ev w) = Rejected e) \<and>
         (\<forall>t. fst (call_end (new_ingest cls ev p) w2) = Some t \<longrightarrow>
            fst (syncGranule selector ev w) = Rejected t)"
proof -
  obtain thrown w3 where c: "call_end (new_ingest cls ev p) w2 = (thrown, w3)"
    by (cases "call_end (new_ingest cls ev p) w2")
  have "fst (syncGranule selector ev w) =
          Rejected (case thrown of None \<Rightarrow> errorToThrow e | Some t \<Rightarrow> t)"
    using syncGranule_constructed[where selector=selector and ev=ev and p=p and cls=cls and w=w,
        OF assms(1,2)] assms(3) c
    by (simp add: catch_handler_def split: option.splits)
  then show ?thesis using c by (simp add: errorToThrow_def)
qed

lemma stub_download_fails:
  "download stub_adapter ''my-private'' s3_provider [gran ''refused'']
         (world0\<lparr>calls := calls world0 @ [c]\<rparr>) =
     (Inl (Error ''Error'' ''connect ECONNREFUSED 127.0.0.1:21'' (Some ''timeout'')),
      world0\<lparr>calls := [c, Ingest (gran ''refused'') ''my-private'']\<rparr>)"
  "download stub_adapter ''my-private'' s3_provider [gran ''slow'']
         (world0\<lparr>calls := calls world0 @ [c]\<rparr>) =
     (Inl (Error ''Error'' ''no answer'' (Some ''timeout'')),
      world0\<lparr>calls := [c, Ingest (gran ''slow'') ''my-private'']\<rparr>)"
  "download stub_adapter ''my-private'' s3_provider [gran ''missing'']
         (world0\<lparr>calls := calls world0 @ [c]\<rparr>) =
     (Inl (Error ''FileNotFound'' ''no such file'' None),
      world0\<lparr>calls := [c, Ingest (gran ''missing'') ''my-private'']\<rparr>)"
  "download stub_adapter_end_throws ''my-private'' sftp_provider [gran ''refused'']
         (world0\<lparr>calls := calls world0 @ [c]\<rparr>) =
     (Inl (Error ''Error'' ''connect ECONNREFUSED 127.0.0.1:21'' (Some ''timeout'')),
      world0\<lparr>calls := [c, Ingest (gran ''refused'') ''my-private'']\<rparr>)"
  by (simp_all add: download_def stub_adapter_def stub_adapter_end_throws_def stub_ingest_def
      gran_def world0_def)

text \<open>
  The amended claim on a refused connection, a timeout and a missing file with an \<open>end\<close>
  that returns, and on a refused connection with an \<open>end\<close> that throws.
\<close>

theorem syncGranule_error_mapping_witness:
  "fst (syncGranule stub_selector (sync_event (Some s3_provider) None [gran ''refused'']) world0) =
     Rejected (RemoteResourceError ''Connection Refused'') \<and>
   fst (syncGranule stub_selector (sync_event (Some s3_provider) None [gran ''slow'']) world0) =
     Rejected (ConnectionTimeout ''connection Timed out'') \<and>
   fst (syncGranule stub_selector (sync_event (Some s3_provider) None [gran ''missing'']) world0) =
     Rejected (Error ''FileNotFound'' ''no such file'' None) \<and>
   fst (syncGranule stub_selector (sync_event (Some sftp_provider) None [gran ''refused'']) world0) =
     Rejected (Error ''Error'' ''session is not open'' None)"
proof -
  let ?ev = "\<lambda>gid. sync_event (Some s3_provider) None [gran gid]"
  let ?ev2 = "sync_event (Some sftp_provider) None [gran ''refused'']"
  let ?cls = "\<lambda>(b::buckets) (c::collection option) (p::provider) (dir::string) (force::bool)
                 (dh::string option). stub_adapter"
  let ?cls2 = "\<lambda>(b::buckets) (c::collection option) (p::provider) (dir::string) (force::bool)
                 (dh::string option). stub_adapter_end_throws"
  let ?w2 = "\<lambda>ev p gid. world0\<lparr>calls := [new_call ev p, Ingest (gran gid) ''my-private'']\<rparr>"
  have c: "stub_selector ''ingest'' (protocol s3_provider) = Inr ?cls"
    by (simp add: stub_selector_def s3_provider_def)
  have c2: "stub_selector ''ingest'' (protocol sftp_provider) = Inr ?cls2"
    by (simp add: stub_selector_def sftp_provider_def)
  have p: "\<And>gid. provider (meta (?ev gid)) = Some s3_provider" by (simp add: sync_event_def)
  have p2: "provider (meta ?ev2) = Some sftp_provider" by (simp add: sync_event_def)
  have d1: "download (new_ingest ?cls (?ev ''refused'') s3_provider)
              (private_name (buckets (meta (?ev ''refused'')))) s3_provider
              (granules (payload (?ev ''refused'')))
              (world0\<lparr>calls := calls world0 @ [new_call (?ev ''refused'') s3_provider]\<rparr>) =
            (Inl (Error ''Error'' ''connect ECONNREFUSED 127.0.0.1:21'' (Some ''timeout'')),
             ?w2 (?ev ''refused'') s3_provider ''refused'')"
    using stub_download_fails(1) by (simp add: new_ingest_def sync_event_def)
  have d2: "download (new_ingest ?cls (?ev ''slow'') s3_provider)
              (private_name (buckets (meta (?ev ''slow'')))) s3_provider
              (granules (payload (?ev ''slow'')))
              (world0\<lparr>calls := calls world0 @ [new_call (?ev ''slow'') s3_provider]\<rparr>) =
            (Inl (Error ''Error'' ''no answer'' (Some ''timeout'')),
             ?w2 (?ev ''slow'') s3_provider ''slow'')"
    using stub_download_fails(2) by (simp add: new_ingest_def sync_event_def)
  have d3: "download (new_ingest ?cls (?ev ''missing'') s3_provider)
              (private_name (buckets (meta (?ev ''missing'')))) s3_provider
              (granules (payload (?ev ''missing'')))
              (world0\<lparr>calls := calls world0 @ [new_call (?ev ''missing'') s3_provider]\<rparr>) =
            (Inl (Error ''FileNotFound'' ''no such file'' None),
             ?w2 (?ev ''missing'') s3_provider ''missing'')"
    using stub_download_fails(3) by (simp add: new_ingest_def sync_event_def)
  have d4: "download (new_ingest ?cls2 ?ev2 sftp_provider)
              (private_name (buckets (meta ?ev2))) sftp_provider
              (granules (payload ?ev2))
              (world0\<lparr>calls := calls world0 @ [new_call ?ev2 sftp_provider]\<rparr>) =
            (Inl (Error ''Error'' ''connect ECONNREFUSED 127.0.0.1:21'' (Some ''timeout'')),
             ?w2 ?ev2 sftp_provider ''refused'')"
    using stub_download_fails(4) by (simp add: new_ingest_def sync_event_def)
  have a1: "fst (syncGranule stub_selector (?ev ''refused'') world0) =
              Rejected (RemoteResourceError ''Connection Refused'')"
    using syncGranule_error_mapping [where selector = stub_selector and w = world0, OF p c d1]
    by (simp add: toString_def str_includes_def sublist_code new_ingest_def stub_adapter_def call_end_def)
  have a2: "fst (syncGranule stub_selector (?ev ''slow'') world0) =
              Rejected (ConnectionTimeout ''connection Timed out'')"
    using syncGranule_error_mapping [where selector = stub_selector and w = world0, OF p c d2]
    by (simp add: toString_def str_includes_def sublist_code new_ingest_def stub_adapter_def call_end_def)
  have a3: "fst (syncGranule stub_selector (?ev ''missing'') world0) =
              Rejected (Error ''FileNotFound'' ''no such file'' None)"
    using syncGranule_error_mapping [where selector = stub_selector and w = world0, OF p c d3]
    by (simp add: toString_def str_includes_def sublist_code new_ingest_def stub_adapter_def call_end_def)
  have a4: "fst (syncGranule stub_selector ?ev2 world0) =
              Rejected (Error ''Error'' ''session is not open'' None)"
    using syncGranule_error_mapping [where selector = stub_selector and w = world0, OF p2 c2 d4]
    by (simp add: new_ingest_def stub_adapter_end_throws_def call_end_def)
  show ?thesis using a1 a2 a3 a4 by simp
qed

text \<open>
  Claim C6 as stated fails: an error whose \<open>details.status\<close> is \<open>timeout\<close> and whose
  message contains \<open>ECONNREFUSED\<close> is thrown again as \<open>RemoteResourceError\<close>, not as a
  connection timeout, since the test for \<open>ECONNREFUSED\<close> comes first.
\<close>

theorem syncGranule_refused_beats_timeout:
  "fst (stub_ingest (gran ''refused'') ''my-private'' []) =
     Inl (Error ''Error'' ''connect ECONNREFUSED 127.0.0.1:21'' (Some ''timeout'')) \<and>
   err_details_status (Error ''Error'' ''connect ECONNREFUSED 127.0.0.1:21'' (Some ''timeout'')) =
     Some ''timeout'' \<and>
   fst (syncGranule stub_selector (sync_event (Some s3_provider) None [gran ''refused'']) world0) =
     Rejected (RemoteResourceError ''Connection Refused'') \<and>
   RemoteResourceError ''Connection Refused'' \<noteq> ConnectionTimeout ''connection Timed out''"
  by (simp add: stub_defs RemoteResourceError_def ConnectionTimeout_def)

text \<open>
  Claim C1 on an event whose collection sets no \<open>duplicateHandling\<close>: the mode that
  \<open>syncGranule\<close> resolves and passes to the constructor of the ingest class is \<open>null\<close>,
  not \<open>error\<close>.
\<close>

theorem syncGranule_passes_null_duplicateHandling:
  "duplicateHandling (coll ''MOD09GQ'') = None \<and>
   resolve_duplicateHandling (sync_event (Some s3_provider) (Some (coll ''MOD09GQ'')) [gran ''g1'']) = None \<and>
   calls (snd (syncGranule stub_selector
       (sync_event (Some s3_provider) (Some (coll ''MOD09GQ'')) [gran ''g1'']) world0)) =
     [New \<lparr>private_name = ''my-private''\<rparr> (Some (coll ''MOD09GQ'')) s3_provider
        ''file-staging/my-stack'' False None,
      Ingest (gran ''g1'') ''my-private'', End] \<and>
   (None :: string option) \<noteq> Some ''error''"
  by (simp add: stub_sync_ok) (simp add: resolve_duplicateHandling_def sync_event_def coll_def truthy_def)

section \<open>Properties of the staging path\<close>














section \<open>Properties of the duplicate policy and of the lock coordinator\<close>

text \<open>
  Claim C8. When a file is fetched again, its destination object exists with a different
  checksum and the mode is \<open>skip\<close>: the step succeeds, the staging area after it is the
  staging area before it (the destination object is not overwritten and no object is
  added), and the file's record is marked \<open>duplicate_found\<close>.
\<close>

theorem skip_keeps_existing:
  assumes "area key = Some existing" and "checksum existing \<noteq> checksum incoming"
  shows "\<exists>f'. stage_file disambiguate area key f incoming Mode_skip = (Inr f', area) \<and>
              duplicate_found f' = True"
  using assms by (simp add: stage_file_def evaluate_def)

text \<open>
  Claim C8 on a staged file whose bytes changed at the provider.
\<close>

theorem skip_keeps_existing_witness:
  "\<exists>f'. stage_file (\<lambda>k. k @ ''.v1'')
          [''file-staging/my-stack/MOD09GQ/f.hdf'' \<mapsto> \<lparr>bytes = ''old bytes'', checksum = Some ''1111''\<rparr>]
          ''file-staging/my-stack/MOD09GQ/f.hdf''
          \<lparr>name = ''f.hdf'', path = ''granules'', fileSize = 3, duplicate_found = False\<rparr>
          \<lparr>bytes = ''new'', checksum = Some ''2222''\<rparr> Mode_skip =
        (Inr f', [''file-staging/my-stack/MOD09GQ/f.hdf'' \<mapsto> \<lparr>bytes = ''old bytes'', checksum = Some ''1111''\<rparr>]) \<and>
        duplicate_found f' = True"
  using skip_keeps_existing [of
      "[''file-staging/my-stack/MOD09GQ/f.hdf'' \<mapsto> \<lparr>bytes = ''old bytes'', checksum = Some ''1111''\<rparr>]"
      "''file-staging/my-stack/MOD09GQ/f.hdf''" "\<lparr>bytes = ''old bytes'', checksum = Some ''1111''\<rparr>"
      "\<lparr>bytes = ''new'', checksum = Some ''2222''\<rparr>" "\<lambda>k. k @ ''.v1''"
      "\<lparr>name = ''f.hdf'', path = ''granules'', fileSize = 3, duplicate_found = False\<rparr>"]
  by simp

lemma lock_step_now: "now s \<le> now (lock_step ev s)"
  by (cases ev) (auto simp: conditional_insert_def release_def split: option.splits)

lemma lock_run_now: "now s \<le> now (lock_run evs s)"
proof (induction evs arbitrary: s)
  case Nil
  then show ?case by simp
next
  case (Cons ev evs)
  have "now s \<le> now (lock_step ev s)" by (rule lock_step_now)
  also have "\<dots> \<le> now (lock_run evs (lock_step ev s))" by (rule Cons.IH)
  finally show ?case by simp
qed

lemma lock_step_keeps:
  assumes "table s k = Some en" and "ev \<noteq> Release (owner en) k" and "now s < expires en"
  shows "table (lock_step ev s) k = Some en"
proof (cases ev)
  case (Attempt c k' ttl)
  with assms show ?thesis by (cases "k' = k") (auto simp: conditional_insert_def split: option.splits)
next
  case (Release c k')
  with assms show ?thesis by (cases "k' = k") (auto simp: release_def split: option.splits)
next
  case (Elapse d)
  with assms show ?thesis by simp
qed

lemma lock_run_keeps:
  "table s k = Some en \<Longrightarrow> Release (owner en) k \<notin> set evs \<Longrightarrow>
     now (lock_run evs s) < expires en \<Longrightarrow> table (lock_run evs s) k = Some en"
proof (induction evs arbitrary: s)
  case Nil
  then show ?case by simp
next
  case (Cons ev evs)
  let ?s1 = "lock_step ev s"
  have "now s \<le> now ?s1" by (rule lock_step_now)
  also have "\<dots> \<le> now (lock_run evs ?s1)" by (rule lock_run_now)
  also have "\<dots> < expires en" using Cons.prems(3) by simp
  finally have lt: "now s < expires en" .
  have ne: "ev \<noteq> Release (owner en) k" using Cons.prems(2) by auto
  have "table ?s1 k = Some en" by (rule lock_step_keeps[OF Cons.prems(1) ne lt])
  moreover have "Release (owner en) k \<notin> set evs" using Cons.prems(2) by simp
  moreover have "now (lock_run evs ?s1) < expires en" using Cons.prems(3) by simp
  ultimately show ?case using Cons.IH by simp
qed

lemma conditional_insert_entry:
  "conditional_insert c k ttl s = (True, s1) \<Longrightarrow>
     table s1 k = Some \<lparr>owner = c, expires = now s + ttl\<rparr>"
  by (auto simp: conditional_insert_def split: option.splits if_splits)

text \<open>
  Claim C9. After an attempt of caller \<open>c1\<close> has acquired the lock of a key, whatever
  the callers do next, in whatever order: as long as \<open>c1\<close> has not released the lock and
  its entry has not expired, no attempt on the same key succeeds. So two calls of
  \<open>acquire\<close> on one key never both succeed before either releases or expires.
\<close>

theorem lock_at_most_one_holder:
  assumes "conditional_insert c1 k ttl1 s = (True, s1)"
    and "Release c1 k \<notin> set evs"
    and "now (lock_run evs s1) < now s + ttl1"
  shows "fst (conditional_insert c2 k ttl2 (lock_run evs s1)) = False"
proof -
  let ?en = "\<lparr>owner = c1, expires = now s + ttl1\<rparr>"
  have a: "table s1 k = Some ?en" by (rule conditional_insert_entry[OF assms(1)])
  have "table (lock_run evs s1) k = Some ?en"
    using lock_run_keeps[OF a] assms(2,3) by simp
  then show ?thesis using assms(3) by (simp add: conditional_insert_def)
qed

text \<open>
  Claim C9 on a run in which a second caller tries, waits, and tries again while the
  first holds the lock.
\<close>

theorem lock_at_most_one_holder_witness:
  "fst (conditional_insert 2 (''s3_provider'', ''g1'') 300000
         (lock_run [Attempt 2 (''s3_provider'', ''g1'') 300000, Elapse 5000,
                    Release 2 (''s3_provider'', ''g1''), Attempt 3 (''s3_provider'', ''g2'') 300000]
            \<lparr>now = 0, table = [(''s3_provider'', ''g1'') \<mapsto> \<lparr>owner = 1, expires = 300000\<rparr>]\<rparr>)) = False"
proof -
  let ?k = "(''s3_provider'', ''g1'')"
  let ?evs = "[Attempt 2 ?k 300000, Elapse 5000, Release 2 ?k, Attempt 3 (''s3_provider'', ''g2'') 300000]"
  let ?s1 = "\<lparr>now = 0, table = [?k \<mapsto> \<lparr>owner = 1, expires = 300000\<rparr>]\<rparr>"
  have a: "conditional_insert 1 ?k 300000 \<lparr>now = 0, table = Map.empty\<rparr> = (True, ?s1)"
    by (simp add: conditional_insert_def)
  have b: "Release 1 ?k \<notin> set ?evs" by simp
  have c: "now (lock_run ?evs ?s1) < now \<lparr>now = 0, table = Map.empty\<rparr> + 300000"
    by (simp add: conditional_insert_def release_def)
  show ?thesis using lock_at_most_one_holder [OF a b c, of 2 300000] by simp
qed

text \<open>
  The lock is not held for ever: after the holder's \<open>release\<close>, or once the time to live
  has passed, the next attempt succeeds.
\<close>

lemma lock_free_after_release:
  "conditional_insert c1 k ttl1 s = (True, s1) \<Longrightarrow>
     fst (conditional_insert c2 k ttl2 (release c1 k s1)) = True"
  by (auto simp: conditional_insert_def release_def split: option.splits if_splits)

lemma lock_free_after_expiry:
  "conditional_insert c1 k ttl1 s = (True, s1) \<Longrightarrow>
     fst (conditional_insert c2 k ttl2 (lock_step (Elapse ttl1) s1)) = True"
  by (auto simp: conditional_insert_def split: option.splits if_splits)

end
